theory Spec2Isabelle
  imports
    Main
    "HOL-Library.Char_ord"
    "HOL-Library.List_Lexorder"
    "HOL-Library.Sublist"
    "HOL-Library.AList"
begin

section \<open>Strings and the JavaScript library functions the server uses\<close>

text \<open>
  JavaScript strings are modelled as \<^typ>\<open>string\<close>: lists of 8-bit characters, ordered
  lexicographically by character code, which is how \<^verbatim>\<open>Array.prototype.sort\<close> and the
  string comparison \<^verbatim>\<open>>=\<close> order strings of such characters.
\<close>

definition is_digit :: "char \<Rightarrow> bool" where
  \<comment> \<open>the regular-expression class \<^verbatim>\<open>\d\<close>\<close>
  "is_digit c \<longleftrightarrow> CHR ''0'' \<le> c \<and> c \<le> CHR ''9''"

definition is_line_terminator :: "char \<Rightarrow> bool" where
  \<comment> \<open>the characters that \<^verbatim>\<open>.\<close> does not match (no \<^verbatim>\<open>s\<close> flag)\<close>
  "is_line_terminator c \<longleftrightarrow> c = CHR 0x0A \<or> c = CHR 0x0D"

definition dot_string :: "string \<Rightarrow> bool" where
  \<comment> \<open>a string that \<^verbatim>\<open>.*\<close> matches whole\<close>
  "dot_string s \<longleftrightarrow> list_all (\<lambda>c. \<not> is_line_terminator c) s"

definition digit_val :: "char \<Rightarrow> nat" where
  "digit_val c = of_char c - 48"

definition parseInt :: "string \<Rightarrow> nat" where
  \<comment> \<open>\<^verbatim>\<open>parseInt(s, 10)\<close> on a string of decimal digits\<close>
  "parseInt s = foldl (\<lambda>acc c. 10 * acc + digit_val c) 0 s"

definition endsWith :: "string \<Rightarrow> string \<Rightarrow> bool" where
  "endsWith s suf \<longleftrightarrow> length suf \<le> length s \<and> drop (length s - length suf) s = suf"

definition js_slice :: "'a list \<Rightarrow> int \<Rightarrow> int option \<Rightarrow> 'a list" where
  \<comment> \<open>\<^verbatim>\<open>xs.slice(start, end)\<close>; a negative index counts from the end, a missing end is the length\<close>
  "js_slice xs start end_opt =
     (let len = int (length xs);
          k = (if start < 0 then max (len + start) 0 else min start len);
          e = (case end_opt of
                 None \<Rightarrow> len
               | Some e' \<Rightarrow> (if e' < 0 then max (len + e') 0 else min e' len))
      in take (nat (e - k)) (drop (nat k) xs))"

fun math_max :: "nat list \<Rightarrow> nat" where
  \<comment> \<open>\<^verbatim>\<open>Math.max(...numbers)\<close>; the server calls it on a non-empty list only\<close>
  "math_max [] = 0"
| "math_max (x # xs) = fold max xs x"

fun digits_of :: "nat \<Rightarrow> string" where
  \<comment> \<open>\<^verbatim>\<open>String(n)\<close> for a non-negative integer\<close>
  "digits_of n =
     (if n < 10 then [char_of (48 + n)]
      else digits_of (n div 10) @ [char_of (48 + n mod 10)])"

declare digits_of.simps [simp del]

definition padStart :: "string \<Rightarrow> nat \<Rightarrow> char \<Rightarrow> string" where
  \<comment> \<open>\<^verbatim>\<open>s.padStart(width, c)\<close> with a one-character filler\<close>
  "padStart s width c = replicate (width - length s) c @ s"

section \<open>The task root\<close>

text \<open>
  The state is the directory \<^verbatim>\<open>TASKS_DIR\<close> (\<^verbatim>\<open>cwd/_tasks\<close>): its children other than
  \<^verbatim>\<open>current\<close>, each a directory with the names of its own entries or a regular file, and
  the symbolic link \<^verbatim>\<open>current\<close> with its target text, if the link exists. A missing
  \<^verbatim>\<open>TASKS_DIR\<close> is the empty one, since every listing creates it first. The name
  \<^verbatim>\<open>current\<close> is either absent or a symbolic link. Names are single path components: a
  label or a suffix containing \<^verbatim>\<open>/\<close> would address a nested path, which this flat tree does
  not represent, and listing a name that is no child of \<^verbatim>\<open>TASKS_DIR\<close> fails here.
  File-system failures other than a missing entry or an entry of the wrong kind are not
  modelled. The clock is a parameter: the ISO date of today for the allocator, which is
  taken to read the same day at each of its calls, and the calendar day for the recency
  filter.
\<close>

datatype node = Dir "string list" | File

record tasks_root =
  tasks_path :: "string list"  \<comment> \<open>the components of the absolute path \<^verbatim>\<open>TASKS_DIR\<close>\<close>
  entries :: "(string \<times> node) list"
  current :: "string option"

definition readdir :: "tasks_root \<Rightarrow> string \<Rightarrow> string list option" where
  \<comment> \<open>\<^verbatim>\<open>fs.readdir(path.join(TASKS_DIR, name))\<close>; \<open>None\<close> when it throws\<close>
  "readdir fs name =
     (case map_of (entries fs) name of
        Some (Dir names) \<Rightarrow> Some names
      | _ \<Rightarrow> None)"

section \<open>Report catalog and report allocator\<close>

fun isReportName :: "string \<Rightarrow> bool" where
  \<comment> \<open>\<^verbatim>\<open>/^\d{3}-.*\.md$/.test(name)\<close>\<close>
  "isReportName (a # b # c # d # rest) \<longleftrightarrow>
     is_digit a \<and> is_digit b \<and> is_digit c \<and> d = CHR ''-'' \<and>
     dot_string rest \<and> endsWith rest ''.md''"
| "isReportName _ \<longleftrightarrow> False"

definition reportFilesAll :: "tasks_root \<Rightarrow> string \<Rightarrow> string list" where
  \<comment> \<open>the local \<^verbatim>\<open>reportFiles\<close> of \<^verbatim>\<open>getReportFiles\<close>: filtered and sorted, not yet cut\<close>
  "reportFilesAll fs taskDir =
     (case readdir fs taskDir of
        None \<Rightarrow> []
      | Some names \<Rightarrow> sort (filter isReportName names))"

definition getReportFiles :: "tasks_root \<Rightarrow> string \<Rightarrow> string list" where
  "getReportFiles fs taskDir =
     (let reportFiles = reportFilesAll fs taskDir
      in if length reportFiles \<le> 50 then reportFiles
         else js_slice reportFiles 0 (Some 20) @ js_slice reportFiles (- 30) None)"

fun reportNumber :: "string \<Rightarrow> nat" where
  \<comment> \<open>\<^verbatim>\<open>name.match(/^(\d{3})-/)\<close>, then \<^verbatim>\<open>parseInt(match[1], 10)\<close>, or 0 without a match\<close>
  "reportNumber (a # b # c # d # rest) =
     (if is_digit a \<and> is_digit b \<and> is_digit c \<and> d = CHR ''-''
      then parseInt [a, b, c] else 0)"
| "reportNumber _ = 0"

definition findNextReportNumber :: "tasks_root \<Rightarrow> string \<Rightarrow> nat" where
  "findNextReportNumber fs taskDir =
     (let reportFiles = getReportFiles fs taskDir
      in if length reportFiles = 0 then 1
         else math_max (map reportNumber reportFiles) + 1)"

definition next_report_number_unbounded :: "tasks_root \<Rightarrow> string \<Rightarrow> nat" where
  \<comment> \<open>the specification's rule, for comparison with the code: the largest parsed number of
      the whole filtered listing plus 1, or 1 when no report is listed\<close>
  "next_report_number_unbounded fs taskDir =
     (let reportFiles = reportFilesAll fs taskDir
      in if length reportFiles = 0 then 1
         else math_max (map reportNumber reportFiles) + 1)"

definition reportFileName :: "nat \<Rightarrow> string \<Rightarrow> string" where
  \<comment> \<open>the template \<^verbatim>\<open>`${String(nextNumber).padStart(3, '0')}-${suffix}.md`\<close>\<close>
  "reportFileName nextNumber sfx =
     padStart (digits_of nextNumber) 3 CHR ''0'' @ ''-'' @ sfx @ ''.md''"

definition create_file :: "tasks_root \<Rightarrow> string \<Rightarrow> string \<Rightarrow> tasks_root" where
  \<comment> \<open>the caller's write of a new file into an existing task directory; nothing else changes\<close>
  "create_file fs taskDir fileName =
     (case readdir fs taskDir of
        None \<Rightarrow> fs
      | Some names \<Rightarrow>
          if fileName \<in> set names then fs
          else fs\<lparr>entries := AList.update taskDir (Dir (names @ [fileName])) (entries fs)\<rparr>)"

section \<open>Name codec\<close>

definition getDateSuffix :: "string \<Rightarrow> nat \<Rightarrow> string" where
  \<comment> \<open>\<open>dateStr\<close> is the clock's \<^verbatim>\<open>new Date().toISOString().split('T')[0]\<close>;
      \<^verbatim>\<open>String.fromCharCode(97 + index)\<close> is an 8-bit character for \<open>index \<le> 158\<close>\<close>
  "getDateSuffix dateStr index =
     (if index = 0 then dateStr else dateStr @ [char_of (97 + index)])"

record parsed_name =
  datePrefix :: string
  slug :: string

fun is_date :: "string \<Rightarrow> bool" where
  \<comment> \<open>\<^verbatim>\<open>\d{4}-\d{2}-\d{2}\<close> matching the whole string\<close>
  "is_date [y1, y2, y3, y4, h1, m1, m2, h2, d1, d2] \<longleftrightarrow>
     is_digit y1 \<and> is_digit y2 \<and> is_digit y3 \<and> is_digit y4 \<and> h1 = CHR ''-'' \<and>
     is_digit m1 \<and> is_digit m2 \<and> h2 = CHR ''-'' \<and> is_digit d1 \<and> is_digit d2"
| "is_date _ \<longleftrightarrow> False"

definition is_suffix_letter :: "char \<Rightarrow> bool" where
  \<comment> \<open>the class \<^verbatim>\<open>[b-z]\<close>\<close>
  "is_suffix_letter c \<longleftrightarrow> CHR ''b'' \<le> c \<and> c \<le> CHR ''z''"

definition parseTaskDirName :: "string \<Rightarrow> parsed_name option" where
  \<comment> \<open>\<^verbatim>\<open>dirName.match(/^(\d{4}-\d{2}-\d{2}[b-z]?)-(.+)$/)\<close>: after the date, a letter is taken
      by \<^verbatim>\<open>[b-z]?\<close> (backtracking to the empty match cannot succeed, the letter is no
      \<^verbatim>\<open>-\<close>); then \<^verbatim>\<open>-\<close> and a non-empty rest without line terminators\<close>
  "parseTaskDirName dirName =
     (if is_date (take 10 dirName) then
        (case drop 10 dirName of
           [] \<Rightarrow> None
         | c # rest \<Rightarrow>
             if is_suffix_letter c then
               (case rest of
                  [] \<Rightarrow> None
                | d # s \<Rightarrow>
                    if d = CHR ''-'' \<and> s \<noteq> [] \<and> dot_string s
                    then Some \<lparr>datePrefix = take 11 dirName, slug = s\<rparr>
                    else None)
             else if c = CHR ''-'' \<and> rest \<noteq> [] \<and> dot_string rest
             then Some \<lparr>datePrefix = take 10 dirName, slug = rest\<rparr>
             else None)
      else None)"

section \<open>Directory catalog\<close>

fun isDirectory :: "node \<Rightarrow> bool" where
  "isDirectory (Dir _) \<longleftrightarrow> True"
| "isDirectory File \<longleftrightarrow> False"

definition getAllTaskDirs :: "tasks_root \<Rightarrow> string list" where
  "getAllTaskDirs fs =
     sort (map fst
       (filter (\<lambda>entry. isDirectory (snd entry) \<and> parseTaskDirName (fst entry) \<noteq> None)
          (entries fs)))"

subsection \<open>The clock and the recency filter\<close>












section \<open>Current-pointer store\<close>

fun splitOn :: "char \<Rightarrow> string \<Rightarrow> string list" where
  "splitOn c [] = [] # []"
| "splitOn c (x # xs) =
     (if x = c then [] # splitOn c xs
      else (case splitOn c xs of [] \<Rightarrow> [x] # [] | s # ss \<Rightarrow> (x # s) # ss))"

definition path_segments :: "string \<Rightarrow> string list" where
  "path_segments p = filter (\<lambda>s. s \<noteq> []) (splitOn CHR ''/'' p)"

fun normalize_onto :: "string list \<Rightarrow> string list \<Rightarrow> string list" where
  \<comment> \<open>\<^verbatim>\<open>path.join\<close> of an absolute path and further components: \<^verbatim>\<open>.\<close> is dropped and
      \<^verbatim>\<open>..\<close> removes the component before it (none at the root)\<close>
  "normalize_onto base [] = base"
| "normalize_onto base (s # ss) =
     (if s = ''.'' then normalize_onto base ss
      else if s = ''..'' then normalize_onto (butlast base) ss
      else normalize_onto (base @ [s]) ss)"

definition basename_of :: "string list \<Rightarrow> string" where
  \<comment> \<open>\<^verbatim>\<open>path.basename\<close> of a path given by its components\<close>
  "basename_of segs = (if segs = [] then [] else last segs)"

definition isAbsolute :: "string \<Rightarrow> bool" where
  "isAbsolute p \<longleftrightarrow> p \<noteq> [] \<and> hd p = CHR ''/''"

definition getCurrentTaskDir :: "tasks_root \<Rightarrow> string option" where
  \<comment> \<open>\<open>None\<close> is \<^verbatim>\<open>null\<close>: \<^verbatim>\<open>readlink\<close> threw\<close>
  "getCurrentTaskDir fs =
     (case current fs of
        None \<Rightarrow> None
      | Some target \<Rightarrow>
          Some (if isAbsolute target then basename_of (path_segments target)
                else basename_of (normalize_onto (tasks_path fs) (path_segments target))))"

definition updateCurrentSymlink :: "tasks_root \<Rightarrow> string \<Rightarrow> tasks_root" where
  \<comment> \<open>\<^verbatim>\<open>unlink\<close> (its failure ignored), then \<^verbatim>\<open>symlink(taskDir, CURRENT_LINK)\<close>\<close>
  "updateCurrentSymlink fs taskDir = fs\<lparr>current := Some taskDir\<rparr>"

section \<open>Task info and the task allocator\<close>

record task_info =
  task_slug :: string
  reports_dir :: string
  report_file_names :: "string list"

definition getTaskInfo :: "tasks_root \<Rightarrow> string option \<Rightarrow> task_info option" where
  \<comment> \<open>\<^verbatim>\<open>!taskDir\<close> holds for \<^verbatim>\<open>null\<close> and for the empty string\<close>
  "getTaskInfo fs taskDir =
     (case taskDir of
        None \<Rightarrow> None
      | Some dirName \<Rightarrow>
          if dirName = [] then None
          else (case parseTaskDirName dirName of
                  None \<Rightarrow> None
                | Some parsed \<Rightarrow>
                    Some \<lparr>task_slug = slug parsed,
                          reports_dir = ''_tasks/'' @ dirName,
                          report_file_names = getReportFiles fs dirName\<rparr>))"

datatype error =
  Thrown string  \<comment> \<open>\<^verbatim>\<open>throw new Error(message)\<close>\<close>
| MkdirFailed    \<comment> \<open>\<^verbatim>\<open>fs.mkdir\<close> threw: the name exists and is no directory\<close>

function probe :: "string \<Rightarrow> string list \<Rightarrow> string \<Rightarrow> nat \<Rightarrow> string option" where
  \<comment> \<open>the \<^verbatim>\<open>for (let i = 0; i < 26; i++)\<close> loop from \<open>i\<close> on; \<open>None\<close> when it ends or breaks\<close>
  "probe today allDirs slg i =
     (if i < 26 then
        (let datePrefix = getDateSuffix today i
         in if \<not> prefix today datePrefix then None
            else (let candidateName = datePrefix @ ''-'' @ slg
                  in if candidateName \<notin> set allDirs then Some candidateName
                     else probe today allDirs slg (i + 1)))
      else None)"
  by pat_completeness auto
termination
  by (relation "measure (\<lambda>(today, allDirs, slg, i). 26 - i)") auto

declare probe.simps [simp del]

definition findNextTaskDirName :: "string \<Rightarrow> tasks_root \<Rightarrow> string \<Rightarrow> error + string" where
  "findNextTaskDirName today fs slg =
     (case probe today (getAllTaskDirs fs) slg 0 of
        Some candidateName \<Rightarrow> Inr candidateName
      | None \<Rightarrow> Inl (Thrown ''Too many tasks for today (max 26)''))"

definition mkdir_task :: "tasks_root \<Rightarrow> string \<Rightarrow> error + tasks_root" where
  \<comment> \<open>\<^verbatim>\<open>fs.mkdir(path.join(TASKS_DIR, name), { recursive: true })\<close>\<close>
  "mkdir_task fs name =
     (case map_of (entries fs) name of
        None \<Rightarrow> Inr (fs\<lparr>entries := entries fs @ [(name, Dir [])]\<rparr>)
      | Some (Dir _) \<Rightarrow> Inr fs
      | Some File \<Rightarrow> Inl MkdirFailed)"

definition findTaskDirBySlug :: "tasks_root \<Rightarrow> string \<Rightarrow> string option" where
  \<comment> \<open>the loop runs from the last directory of the sorted listing down to the first\<close>
  "findTaskDirBySlug fs slg =
     find (\<lambda>dirName. case parseTaskDirName dirName of
                        None \<Rightarrow> False
                      | Some parsed \<Rightarrow> slug parsed = slg)
          (rev (getAllTaskDirs fs))"

section \<open>Tool handlers\<close>

datatype reply =
  TaskInfoReply task_info       \<comment> \<open>the task info as JSON\<close>
| NullReply                     \<comment> \<open>\<^verbatim>\<open>JSON.stringify(null)\<close>\<close>
| NoCurrentTask                 \<comment> \<open>\<^verbatim>\<open>{ error: 'No current task' }\<close>, not flagged \<^verbatim>\<open>isError\<close>\<close>
| RecentTaskSlugs "string list"
| ReportFileToCreate string
| ErrorReply error              \<comment> \<open>the \<^verbatim>\<open>catch\<close> branch: the message, flagged \<^verbatim>\<open>isError\<close>\<close>

definition info_reply :: "task_info option \<Rightarrow> reply" where
  "info_reply taskInfo = (case taskInfo of None \<Rightarrow> NullReply | Some ti \<Rightarrow> TaskInfoReply ti)"

definition current_task :: "tasks_root \<Rightarrow> reply" where
  "current_task fs =
     (let taskDir = getCurrentTaskDir fs;
          taskInfo = getTaskInfo fs taskDir
      in case taskInfo of None \<Rightarrow> NoCurrentTask | Some ti \<Rightarrow> TaskInfoReply ti)"

definition start_new_task :: "string \<Rightarrow> tasks_root \<Rightarrow> string \<Rightarrow> reply \<times> tasks_root" where
  "start_new_task today fs slg =
     (if slg = [] then (ErrorReply (Thrown ''task_slug is required''), fs)
      else (case findNextTaskDirName today fs slg of
              Inl e \<Rightarrow> (ErrorReply e, fs)
            | Inr taskDirName \<Rightarrow>
                (case mkdir_task fs taskDirName of
                   Inl e \<Rightarrow> (ErrorReply e, fs)
                 | Inr fs1 \<Rightarrow>
                     (let fs2 = updateCurrentSymlink fs1 taskDirName
                      in (info_reply (getTaskInfo fs2 (Some taskDirName)), fs2)))))"

definition switch_task :: "tasks_root \<Rightarrow> string \<Rightarrow> reply \<times> tasks_root" where
  "switch_task fs slg =
     (if slg = [] then (ErrorReply (Thrown ''task_slug is required''), fs)
      else (case findTaskDirBySlug fs slg of
              None \<Rightarrow> (ErrorReply (Thrown (''Task not found: '' @ slg)), fs)
            | Some taskDir \<Rightarrow>
                (let fs1 = updateCurrentSymlink fs taskDir
                 in (info_reply (getTaskInfo fs1 (Some taskDir)), fs1))))"



definition start_new_report_file :: "tasks_root \<Rightarrow> string \<Rightarrow> reply" where
  "start_new_report_file fs sfx =
     (if sfx = [] then ErrorReply (Thrown ''suffix is required'')
      else (case getCurrentTaskDir fs of
              None \<Rightarrow> ErrorReply (Thrown ''No current task'')
            | Some taskDir \<Rightarrow>
                if taskDir = [] then ErrorReply (Thrown ''No current task'')
                else (let nextNumber = findNextReportNumber fs taskDir;
                          fileName = reportFileName nextNumber sfx;
                          filePath = ''_tasks/'' @ taskDir @ ''/'' @ fileName
                      in ReportFileToCreate filePath)))"

section \<open>Example states\<close>

definition agent_numbered_root :: tasks_root where
  \<comment> \<open>one task whose reports are \<^verbatim>\<open>001-a.md\<close>, \<^verbatim>\<open>002-b.md\<close> and the agent-written \<^verbatim>\<open>42-c.md\<close>\<close>
  "agent_numbered_root =
     \<lparr>tasks_path = [''work'', ''_tasks''],
      entries = [(''2025-10-01-my-task'', Dir [''001-a.md'', ''002-b.md'', ''42-c.md''])],
      current = Some ''2025-10-01-my-task''\<rparr>"

definition dangling_pointer_root :: tasks_root where
  "dangling_pointer_root =
     \<lparr>tasks_path = [''work'', ''_tasks''], entries = [], current = Some ''2025-10-01-gone''\<rparr>"

definition unparsable_pointer_root :: tasks_root where
  "unparsable_pointer_root =
     \<lparr>tasks_path = [''work'', ''_tasks''],
      entries = [(''notes'', Dir [''001-a.md''])],
      current = Some ''notes''\<rparr>"

definition two_tasks_root :: tasks_root where
  "two_tasks_root =
     \<lparr>tasks_path = [''work'', ''_tasks''],
      entries = [(''2025-10-01b-task-two'', Dir []), (''2025-10-01-task-one'', Dir [''001-a.md''])],
      current = Some ''2025-10-01-task-one''\<rparr>"


definition recent_root :: tasks_root where
  "recent_root =
     \<lparr>tasks_path = [''work'', ''_tasks''],
      entries = [(''2025-10-21-recent-task'', Dir []), (''2025-09-21-old-task'', Dir []),
                 (''2025-10-01b-cutoff-task'', Dir []), (''2025-09-30z-eve-task'', Dir []),
                 (''notes'', Dir []), (''2025-10-30-file'', File)],
      current = None\<rparr>"


definition hundred_reports_root :: tasks_root where
  \<comment> \<open>one task with the reports \<^verbatim>\<open>001-file.md\<close> to \<^verbatim>\<open>100-file.md\<close>, listed backwards by the file system\<close>
  "hundred_reports_root =
     \<lparr>tasks_path = [''work'', ''_tasks''],
      entries = [(''2025-10-01-my-task'',
                  Dir (rev (map (\<lambda>i. reportFileName i ''file'') [1..<101])))],
      current = Some ''2025-10-01-my-task''\<rparr>"

section \<open>The report listing and its window\<close>

lemma js_slice_first: "js_slice xs 0 (Some (int n)) = take n xs"
  by (simp add: js_slice_def min_def)

lemma js_slice_last: "0 < n \<Longrightarrow> js_slice xs (- int n) None = drop (length xs - n) xs"
  by (auto simp add: js_slice_def max_def Let_def nat_diff_distrib' not_le)

lemma getReportFiles_cut:
  "getReportFiles fs d =
     (if length (reportFilesAll fs d) \<le> 50 then reportFilesAll fs d
      else take 20 (reportFilesAll fs d) @
           drop (length (reportFilesAll fs d) - 30) (reportFilesAll fs d))"
  using js_slice_first [of "reportFilesAll fs d" 20] js_slice_last [of 30 "reportFilesAll fs d"]
  by (simp add: getReportFiles_def Let_def)

lemma sorted_reportFilesAll: "sorted (reportFilesAll fs d)"
  by (simp add: reportFilesAll_def split: option.splits)

lemma reportFilesAll_names: "x \<in> set (reportFilesAll fs d) \<Longrightarrow> isReportName x"
  by (auto simp add: reportFilesAll_def split: option.splits)

lemma window_subseq:
  assumes "20 \<le> length s - 30"
  shows "subseq (take 20 s @ drop (length s - 30) s) s"
proof -
  have "suffix (drop (length s - 30) s) (drop 20 s)"
    using suffix_drop [of "length s - 50" "drop 20 s"] assms by simp
  then have "subseq (drop (length s - 30) s) (drop 20 s)"
    by (rule suffix_imp_subseq)
  then have "subseq (take 20 s @ drop (length s - 30) s) (take 20 s @ drop 20 s)"
    by (intro list_emb_append_mono) simp_all
  then show ?thesis
    unfolding append_take_drop_id .
qed

lemma hundred_listing:
  "reportFilesAll hundred_reports_root ''2025-10-01-my-task'' =
     map (\<lambda>i. reportFileName i ''file'') [1..<101]"
  by code_simp

text \<open>
  C6. The listing is the filtered, sorted sequence itself when that has at most 50 names;
  otherwise it is its first 20 names followed by its last 30, exactly 50 names, in the
  order they have in the sequence.
\<close>

theorem getReportFiles_bounded_window:
  "sorted (reportFilesAll fs taskDir) \<and>
   (length (reportFilesAll fs taskDir) \<le> 50 \<longrightarrow>
      getReportFiles fs taskDir = reportFilesAll fs taskDir) \<and>
   (50 < length (reportFilesAll fs taskDir) \<longrightarrow>
      getReportFiles fs taskDir =
        take 20 (reportFilesAll fs taskDir) @
        drop (length (reportFilesAll fs taskDir) - 30) (reportFilesAll fs taskDir) \<and>
      length (getReportFiles fs taskDir) = 50) \<and>
   subseq (getReportFiles fs taskDir) (reportFilesAll fs taskDir)"
proof (intro conjI impI)
  show "sorted (reportFilesAll fs taskDir)" by (rule sorted_reportFilesAll)
next
  assume "length (reportFilesAll fs taskDir) \<le> 50"
  then show "getReportFiles fs taskDir = reportFilesAll fs taskDir"
    by (simp add: getReportFiles_cut)
next
  assume "50 < length (reportFilesAll fs taskDir)"
  then show "getReportFiles fs taskDir =
        take 20 (reportFilesAll fs taskDir) @
        drop (length (reportFilesAll fs taskDir) - 30) (reportFilesAll fs taskDir)"
    by (simp add: getReportFiles_cut)
next
  assume "50 < length (reportFilesAll fs taskDir)"
  then show "length (getReportFiles fs taskDir) = 50"
    by (simp add: getReportFiles_cut)
next
  show "subseq (getReportFiles fs taskDir) (reportFilesAll fs taskDir)"
  proof (cases "length (reportFilesAll fs taskDir) \<le> 50")
    case True
    then show ?thesis by (simp add: getReportFiles_cut)
  next
    case False
    then have "20 \<le> length (reportFilesAll fs taskDir) - 30" by simp
    from window_subseq [OF this] False show ?thesis by (simp add: getReportFiles_cut)
  qed
qed

text \<open>The reports \<^verbatim>\<open>001\<close> to \<^verbatim>\<open>100\<close>: the listing is \<^verbatim>\<open>001\<close> to \<^verbatim>\<open>020\<close>, then \<^verbatim>\<open>071\<close> to \<^verbatim>\<open>100\<close>.\<close>

theorem getReportFiles_bounded_window_witness:
  "getReportFiles hundred_reports_root ''2025-10-01-my-task'' =
     map (\<lambda>i. reportFileName i ''file'') ([1..<21] @ [71..<101])
   \<and> length (getReportFiles hundred_reports_root ''2025-10-01-my-task'') = 50
   \<and> getReportFiles two_tasks_root ''2025-10-01-task-one'' = [''001-a.md'']"
proof -
  have small: "reportFilesAll two_tasks_root ''2025-10-01-task-one'' = [''001-a.md'']"
    by code_simp
  have a: "getReportFiles two_tasks_root ''2025-10-01-task-one'' = [''001-a.md'']"
    using getReportFiles_bounded_window [of two_tasks_root "''2025-10-01-task-one''"]
    unfolding small by simp
  have b: "getReportFiles hundred_reports_root ''2025-10-01-my-task'' =
       map (\<lambda>i. reportFileName i ''file'') ([1..<21] @ [71..<101])
     \<and> length (getReportFiles hundred_reports_root ''2025-10-01-my-task'') = 50"
    using getReportFiles_bounded_window [of hundred_reports_root "''2025-10-01-my-task''"]
    unfolding hundred_listing
    by (simp add: take_map drop_map)
  from a b show ?thesis by simp
qed

section \<open>Report numbering\<close>

lemma math_max_Max:
  assumes "xs \<noteq> []"
  shows "math_max xs = Max (set xs)"
proof (cases xs)
  case Nil
  then show ?thesis using assms by simp
next
  case (Cons a list)
  then show ?thesis using Max.set_eq_fold [of a list] by simp
qed

lemma digit_val_mono:
  "is_digit a \<Longrightarrow> is_digit b \<Longrightarrow> a \<le> b \<Longrightarrow> digit_val a \<le> digit_val b"
  by (simp add: is_digit_def digit_val_def less_eq_char_def)

lemma digit_val_strict:
  "is_digit a \<Longrightarrow> is_digit b \<Longrightarrow> a < b \<Longrightarrow> digit_val a < digit_val b"
  by (simp add: is_digit_def digit_val_def less_eq_char_def less_char_def)

lemma digit_val_le9: "is_digit a \<Longrightarrow> digit_val a \<le> 9"
  unfolding is_digit_def digit_val_def less_eq_char_def by simp linarith

lemma reportNumber_mono:
  assumes "isReportName a" "isReportName b" "a \<le> b"
  shows "reportNumber a \<le> reportNumber b"
proof -
  from assms(1) obtain a1 a2 a3 ra where a: "a = a1 # a2 # a3 # CHR ''-'' # ra"
    and da: "is_digit a1" "is_digit a2" "is_digit a3"
    by (auto elim: isReportName.elims)
  from assms(2) obtain b1 b2 b3 rb where b: "b = b1 # b2 # b3 # CHR ''-'' # rb"
    and db: "is_digit b1" "is_digit b2" "is_digit b3"
    by (auto elim: isReportName.elims)
  have na: "reportNumber a = 100 * digit_val a1 + 10 * digit_val a2 + digit_val a3"
    using a da by (simp add: parseInt_def)
  have nb: "reportNumber b = 100 * digit_val b1 + 10 * digit_val b2 + digit_val b3"
    using b db by (simp add: parseInt_def)
  from assms(3) a b consider "a1 < b1" | "a1 = b1" "a2 < b2" | "a1 = b1" "a2 = b2" "a3 \<le> b3"
    by auto
  then show ?thesis
  proof cases
    case 1
    then show ?thesis
      using digit_val_strict [OF da(1) db(1)] digit_val_le9 [OF da(2)] digit_val_le9 [OF da(3)]
      unfolding na nb by linarith
  next
    case 2
    then show ?thesis
      using digit_val_strict [OF da(2) db(2)] digit_val_le9 [OF da(3)]
      unfolding na nb by simp
  next
    case 3
    then show ?thesis
      using digit_val_mono [OF da(3) db(3)] unfolding na nb by simp
  qed
qed

lemma sorted_le_last: "sorted xs \<Longrightarrow> x \<in> set xs \<Longrightarrow> x \<le> last xs"
  by (induction xs) auto

lemma window_max:
  assumes "sorted s" "\<forall>x\<in>set s. isReportName x" "50 < length s"
  shows "Max (set (map reportNumber (take 20 s @ drop (length s - 30) s))) =
         Max (set (map reportNumber s))"
proof -
  let ?w = "take 20 s @ drop (length s - 30) s"
  have ne: "s \<noteq> []" using assms(3) by auto
  have top: "\<forall>x\<in>set s. reportNumber x \<le> reportNumber (last s)"
    using assms(1,2) ne by (auto intro!: reportNumber_mono sorted_le_last)
  have "drop (length s - 30) s \<noteq> []" using assms(3) by simp
  then have "last s \<in> set (drop (length s - 30) s)"
    by (metis last_drop last_in_set drop_eq_Nil not_le)
  then have lw: "last s \<in> set ?w" by simp
  have sub: "set ?w \<subseteq> set s"
    by (auto dest: in_set_takeD in_set_dropD)
  have "Max (set (map reportNumber s)) = reportNumber (last s)"
    using top ne by (intro Max_eqI) auto
  moreover have "Max (set (map reportNumber ?w)) = reportNumber (last s)"
    using top lw sub by (intro Max_eqI) auto
  ultimately show ?thesis by simp
qed

lemma findNextReportNumber_whole_listing:
  "findNextReportNumber fs taskDir = next_report_number_unbounded fs taskDir"
proof (cases "length (reportFilesAll fs taskDir) \<le> 50")
  case True
  then show ?thesis
    by (simp add: findNextReportNumber_def next_report_number_unbounded_def getReportFiles_cut)
next
  case False
  define s where "s = reportFilesAll fs taskDir"
  define w where "w = take 20 s @ drop (length s - 30) s"
  have big: "50 < length s" using False by (simp add: s_def)
  have gw: "getReportFiles fs taskDir = w"
    using False by (simp add: getReportFiles_cut s_def w_def)
  have wne: "w \<noteq> []" using big by (auto simp add: w_def)
  have sne: "s \<noteq> []" using big by auto
  have names: "\<forall>x\<in>set s. isReportName x"
    using reportFilesAll_names by (simp add: s_def)
  have "sorted s" by (simp add: s_def sorted_reportFilesAll)
  from window_max [OF this names big]
  have "Max (set (map reportNumber w)) = Max (set (map reportNumber s))"
    by (simp add: w_def)
  then have "math_max (map reportNumber w) = math_max (map reportNumber s)"
    using math_max_Max [of "map reportNumber w"] math_max_Max [of "map reportNumber s"] wne sne
    by simp
  then have "findNextReportNumber fs taskDir = math_max (map reportNumber s) + 1"
    using wne by (simp add: findNextReportNumber_def gw)
  moreover have "next_report_number_unbounded fs taskDir = math_max (map reportNumber s) + 1"
    using sne by (simp add: next_report_number_unbounded_def s_def)
  ultimately show ?thesis by simp
qed

lemma hundred_numbers:
  "math_max (map reportNumber (map (\<lambda>i. reportFileName i ''file'') [1..<101])) = 100"
  by code_simp

text \<open>
  C4. The next report number is the one the allocator's rule gives on the whole filtered
  listing: the 50-name window that \<^verbatim>\<open>getReportFiles\<close> applies does not change it, because
  the names kept all begin with three digits, so that the last name of the sorted listing,
  which the window keeps, carries the largest number.
\<close>

theorem findNextReportNumber_window_free:
  "findNextReportNumber fs taskDir = next_report_number_unbounded fs taskDir"
  by (rule findNextReportNumber_whole_listing)

theorem findNextReportNumber_window_free_witness:
  "findNextReportNumber hundred_reports_root ''2025-10-01-my-task'' = 101
   \<and> length (reportFilesAll hundred_reports_root ''2025-10-01-my-task'') = 100"
proof -
  have n: "next_report_number_unbounded hundred_reports_root ''2025-10-01-my-task'' = 101"
    unfolding next_report_number_unbounded_def hundred_listing Let_def hundred_numbers
    by simp
  have l: "length (reportFilesAll hundred_reports_root ''2025-10-01-my-task'') = 100"
    unfolding hundred_listing by simp
  from findNextReportNumber_window_free [of hundred_reports_root "''2025-10-01-my-task''"] n l
  show ?thesis by simp
qed


text \<open>
  C1. The claim: the catalog keeps every name made of a digit run of any length, \<^verbatim>\<open>-\<close>,
  anything and \<^verbatim>\<open>.md\<close>, and for the reports \<^verbatim>\<open>001-a.md\<close>, \<^verbatim>\<open>002-b.md\<close>,
  \<^verbatim>\<open>42-c.md\<close> the next report number is 43. The server's filter asks for exactly three
  digits: it drops \<^verbatim>\<open>42-c.md\<close> from the listing, and the next number is 3.
\<close>

theorem findNextReportNumber_ignores_two_digit_report:
  "getReportFiles agent_numbered_root ''2025-10-01-my-task'' = [''001-a.md'', ''002-b.md'']
   \<and> findNextReportNumber agent_numbered_root ''2025-10-01-my-task'' = 3"
  by code_simp

section \<open>The name codec\<close>

lemma is_date_length: "is_date d \<Longrightarrow> length d = 10"
  by (auto elim: is_date.elims)

lemma suffix_letter_char_of:
  "1 \<le> (i::nat) \<Longrightarrow> i \<le> 25 \<Longrightarrow> is_suffix_letter (char_of (97 + i))"
  by (simp add: is_suffix_letter_def less_eq_char_def)

lemma hyphen_no_suffix_letter: "\<not> is_suffix_letter CHR ''-''"
  by (simp add: is_suffix_letter_def)

lemma parse_plain:
  assumes "is_date d" "label \<noteq> []" "dot_string label"
  shows "parseTaskDirName (d @ ''-'' @ label) = Some \<lparr>datePrefix = d, slug = label\<rparr>"
  using assms is_date_length [OF assms(1)]
  by (simp add: parseTaskDirName_def hyphen_no_suffix_letter)

lemma parse_lettered:
  assumes "is_date d" "is_suffix_letter c" "label \<noteq> []" "dot_string label"
  shows "parseTaskDirName (d @ [c] @ ''-'' @ label) = Some \<lparr>datePrefix = d @ [c], slug = label\<rparr>"
  using assms is_date_length [OF assms(1)]
  by (simp add: parseTaskDirName_def)

lemma parse_format:
  assumes "is_date d" "i \<le> 25" "label \<noteq> []" "dot_string label"
  shows "parseTaskDirName (getDateSuffix d i @ ''-'' @ label) =
         Some \<lparr>datePrefix = getDateSuffix d i, slug = label\<rparr>"
proof (cases "i = 0")
  case True
  then show ?thesis using parse_plain [OF assms(1,3,4)] by (simp add: getDateSuffix_def)
next
  case False
  then have "is_suffix_letter (char_of (97 + i))"
    using assms(2) by (intro suffix_letter_char_of) simp_all
  from parse_lettered [OF assms(1) this assms(3,4)] False
  show ?thesis by (simp add: getDateSuffix_def)
qed

lemma parse_nonempty: "parseTaskDirName d = Some p \<Longrightarrow> d \<noteq> []"
  by (auto simp add: parseTaskDirName_def)

text \<open>
  C8. The claim: for every date, every valid disambiguator and every non-empty label,
  parsing the formatted name gives back the date prefix and the label. The label is matched
  by \<^verbatim>\<open>(.+)$\<close>, and \<^verbatim>\<open>.\<close> matches no line terminator: a label with a line feed does not
  parse.
\<close>

theorem parse_rejects_label_with_newline:
  "parseTaskDirName (getDateSuffix ''2025-10-01'' 0 @ ''-'' @ [CHR ''a'', CHR 0x0A, CHR ''b'']) = None"
  by code_simp

text \<open>
  C8, as amended: for every date string of the form \<^verbatim>\<open>YYYY-MM-DD\<close>, every disambiguator the
  allocator uses (0 to 25) and every non-empty label without a line terminator, the formatted
  name parses to the date prefix and the label.
\<close>

theorem parse_format_round_trip:
  assumes "is_date d" "i \<le> 25" "label \<noteq> []" "dot_string label"
  shows "parseTaskDirName (getDateSuffix d i @ ''-'' @ label) =
         Some \<lparr>datePrefix = getDateSuffix d i, slug = label\<rparr>"
  using assms by (rule parse_format)

theorem parse_format_round_trip_witness:
  "parseTaskDirName (getDateSuffix ''2025-10-01'' 3 @ ''-'' @ ''fix-bug'') =
     Some \<lparr>datePrefix = ''2025-10-01d'', slug = ''fix-bug''\<rparr>
   \<and> getDateSuffix ''2025-10-01'' 3 @ ''-'' @ ''fix-bug'' = ''2025-10-01d-fix-bug''"
proof -
  have a: "is_date ''2025-10-01''" by code_simp
  have b: "(3::nat) \<le> 25" by simp
  have c: "''fix-bug'' \<noteq> []" by simp
  have d: "dot_string ''fix-bug''" by code_simp
  have e: "getDateSuffix ''2025-10-01'' 3 = ''2025-10-01d''" by code_simp
  from parse_format_round_trip [OF a b c d] e show ?thesis by simp
qed

section \<open>Probing for a free directory name\<close>


lemma prefix_getDateSuffix: "prefix today (getDateSuffix today i)"
  by (simp add: getDateSuffix_def)

lemma probe_least:
  assumes "k < 26" "getDateSuffix today k @ ''-'' @ slg \<notin> set allDirs"
    and "\<forall>j<k. getDateSuffix today j @ ''-'' @ slg \<in> set allDirs" "i \<le> k"
  shows "probe today allDirs slg i = Some (getDateSuffix today k @ ''-'' @ slg)"
  using assms(4)
proof (induction "k - i" arbitrary: i)
  case 0
  then have "i = k" by simp
  then show ?case using assms(1,2) by (subst probe.simps) (simp add: Let_def prefix_getDateSuffix)
next
  case (Suc n)
  then have lt: "i < k" by simp
  then have "probe today allDirs slg (i + 1) = Some (getDateSuffix today k @ ''-'' @ slg)"
    using Suc by simp
  then show ?case using lt assms(1,3)
    by (subst probe.simps) (simp add: Let_def prefix_getDateSuffix)
qed

lemma getDateSuffix_least:
  assumes "k < 26" "getDateSuffix today k @ ''-'' @ slg \<notin> set (getAllTaskDirs fs)"
    and "\<forall>j<k. getDateSuffix today j @ ''-'' @ slg \<in> set (getAllTaskDirs fs)"
  shows "findNextTaskDirName today fs slg = Inr (getDateSuffix today k @ ''-'' @ slg)"
  using probe_least [OF assms, of 0] by (simp add: findNextTaskDirName_def)






section \<open>The current task\<close>

lemma getReportFiles_missing: "readdir fs d = None \<Longrightarrow> getReportFiles fs d = []"
  by (simp add: getReportFiles_def reportFilesAll_def)

text \<open>
  C3. The claim: whenever the pointer exists and its target directory has been deleted,
  \<^verbatim>\<open>current_task\<close> answers "no current task". The server reads the link without looking
  at its target: with a target name that parses it answers with a task info whose report
  list is empty.
\<close>

theorem current_task_dangling_pointer:
  "current_task dangling_pointer_root =
     TaskInfoReply \<lparr>task_slug = ''gone'', reports_dir = ''_tasks/2025-10-01-gone'',
                    report_file_names = []\<rparr>"
  by code_simp

text \<open>
  C3, as amended: when the pointer is absent, or the base name of its target does not
  parse as a task directory name, \<^verbatim>\<open>current_task\<close> answers "no current task"; when the base
  name parses and the directory is gone, it answers with the task info of that name and an
  empty report list.
\<close>

theorem current_task_pointer_cases:
  "(getCurrentTaskDir fs = None \<longrightarrow> current_task fs = NoCurrentTask) \<and>
   (getCurrentTaskDir fs = Some d \<and> parseTaskDirName d = None \<longrightarrow>
      current_task fs = NoCurrentTask) \<and>
   (getCurrentTaskDir fs = Some d \<and> parseTaskDirName d = Some p \<and> readdir fs d = None \<longrightarrow>
      current_task fs =
        TaskInfoReply \<lparr>task_slug = slug p, reports_dir = ''_tasks/'' @ d,
                       report_file_names = []\<rparr>)"
proof (intro conjI impI)
  assume "getCurrentTaskDir fs = None"
  then show "current_task fs = NoCurrentTask"
    by (simp add: current_task_def getTaskInfo_def)
next
  assume "getCurrentTaskDir fs = Some d \<and> parseTaskDirName d = None"
  then show "current_task fs = NoCurrentTask"
    by (simp add: current_task_def getTaskInfo_def)
next
  assume h: "getCurrentTaskDir fs = Some d \<and> parseTaskDirName d = Some p \<and> readdir fs d = None"
  then have "d \<noteq> []" using parse_nonempty by blast
  with h show "current_task fs =
        TaskInfoReply \<lparr>task_slug = slug p, reports_dir = ''_tasks/'' @ d,
                       report_file_names = []\<rparr>"
    by (simp add: current_task_def getTaskInfo_def getReportFiles_missing)
qed

theorem current_task_pointer_cases_witness:
  "current_task recent_root = NoCurrentTask
   \<and> getCurrentTaskDir unparsable_pointer_root = Some ''notes''
   \<and> readdir unparsable_pointer_root ''notes'' = Some [''001-a.md'']
   \<and> current_task unparsable_pointer_root = NoCurrentTask
   \<and> getCurrentTaskDir dangling_pointer_root = Some ''2025-10-01-gone''
   \<and> current_task dangling_pointer_root =
       TaskInfoReply \<lparr>task_slug = ''gone'', reports_dir = ''_tasks/2025-10-01-gone'',
                      report_file_names = []\<rparr>"
proof -
  have n: "getCurrentTaskDir recent_root = None" by code_simp
  have g: "getCurrentTaskDir unparsable_pointer_root = Some ''notes''" by code_simp
  have p: "parseTaskDirName ''notes'' = None" by code_simp
  have r: "readdir unparsable_pointer_root ''notes'' = Some [''001-a.md'']" by code_simp
  have g': "getCurrentTaskDir dangling_pointer_root = Some ''2025-10-01-gone''" by code_simp
  have p': "parseTaskDirName ''2025-10-01-gone'' =
      Some \<lparr>datePrefix = ''2025-10-01'', slug = ''gone''\<rparr>" by code_simp
  have r': "readdir dangling_pointer_root ''2025-10-01-gone'' = None" by code_simp
  have a: "current_task recent_root = NoCurrentTask"
    using current_task_pointer_cases [of recent_root] n by blast
  have b: "current_task unparsable_pointer_root = NoCurrentTask"
    using current_task_pointer_cases [of unparsable_pointer_root "''notes''"] g p by blast
  have c: "current_task dangling_pointer_root =
      TaskInfoReply \<lparr>task_slug = ''gone'', reports_dir = ''_tasks/2025-10-01-gone'',
                     report_file_names = []\<rparr>"
    using current_task_pointer_cases [of dangling_pointer_root "''2025-10-01-gone''"
        "\<lparr>datePrefix = ''2025-10-01'', slug = ''gone''\<rparr>"] g' p' r'
    by simp
  from a b c g g' r show ?thesis by simp
qed

section \<open>Switching tasks\<close>

lemma findTaskDirBySlug_None:
  assumes "\<forall>d\<in>set (getAllTaskDirs fs). \<forall>p. parseTaskDirName d = Some p \<longrightarrow> slug p \<noteq> slg"
  shows "findTaskDirBySlug fs slg = None"
  using assms by (auto simp add: findTaskDirBySlug_def find_None_iff split: option.splits)

text \<open>
  C7. For a (non-empty) label that is the parsed label of no task directory,
  \<^verbatim>\<open>switch_task\<close> answers with the error \<^verbatim>\<open>Task not found\<close> and the root is as it was:
  the pointer is unchanged and no directory is created. (The empty label is refused before
  the search, as a missing argument.)
\<close>

theorem switch_task_not_found:
  assumes "slg \<noteq> []"
    and "\<forall>d\<in>set (getAllTaskDirs fs). \<forall>p. parseTaskDirName d = Some p \<longrightarrow> slug p \<noteq> slg"
  shows "switch_task fs slg = (ErrorReply (Thrown (''Task not found: '' @ slg)), fs)"
  using assms(1) findTaskDirBySlug_None [OF assms(2)] by (simp add: switch_task_def)

theorem switch_task_not_found_witness:
  "switch_task two_tasks_root ''missing'' =
     (ErrorReply (Thrown ''Task not found: missing''), two_tasks_root)
   \<and> getAllTaskDirs two_tasks_root = [''2025-10-01-task-one'', ''2025-10-01b-task-two'']
   \<and> current two_tasks_root = Some ''2025-10-01-task-one''"
proof -
  have g: "getAllTaskDirs two_tasks_root = [''2025-10-01-task-one'', ''2025-10-01b-task-two'']"
    by code_simp
  have p1: "parseTaskDirName ''2025-10-01-task-one'' = Some \<lparr>datePrefix = ''2025-10-01'', slug = ''task-one''\<rparr>"
    by code_simp
  have p2: "parseTaskDirName ''2025-10-01b-task-two'' = Some \<lparr>datePrefix = ''2025-10-01b'', slug = ''task-two''\<rparr>"
    by code_simp
  have h: "\<forall>d\<in>set (getAllTaskDirs two_tasks_root). \<forall>p. parseTaskDirName d = Some p \<longrightarrow> slug p \<noteq> ''missing''"
    unfolding g using p1 p2 by auto
  have c: "current two_tasks_root = Some ''2025-10-01-task-one''" by code_simp
  have n: "''missing'' \<noteq> []" by simp
  from switch_task_not_found [OF n h] g c show ?thesis by simp
qed


section \<open>Starting tasks\<close>

lemma getAllTaskDirs_set:
  "set (getAllTaskDirs fs) =
     {n. \<exists>node. (n, node) \<in> set (entries fs) \<and> isDirectory node \<and> parseTaskDirName n \<noteq> None}"
  by (auto simp add: getAllTaskDirs_def) force

lemma readdir_fresh:
  assumes "c \<notin> fst ` set (entries fs)"
  shows "readdir (fs\<lparr>entries := entries fs @ [(c, Dir [])], current := v\<rparr>) c = Some []"
proof -
  have "map_of (entries fs) c = None" using assms by (simp add: map_of_eq_None_iff)
  then show ?thesis by (simp add: readdir_def map_add_def)
qed

lemma getReportFiles_empty_dir: "readdir fs d = Some [] \<Longrightarrow> getReportFiles fs d = []"
  by (simp add: getReportFiles_def reportFilesAll_def)

lemma start_new_task_fresh:
  assumes "slg \<noteq> []" "findNextTaskDirName today fs slg = Inr c"
    and "c \<notin> fst ` set (entries fs)" "parseTaskDirName c = Some p"
  shows "start_new_task today fs slg =
           (TaskInfoReply \<lparr>task_slug = slug p, reports_dir = ''_tasks/'' @ c,
                           report_file_names = []\<rparr>,
            fs\<lparr>entries := entries fs @ [(c, Dir [])], current := Some c\<rparr>)"
proof -
  have m: "map_of (entries fs) c = None" using assms(3) by (simp add: map_of_eq_None_iff)
  have ne: "c \<noteq> []" using assms(4) by (rule parse_nonempty)
  have r: "getReportFiles (fs\<lparr>entries := entries fs @ [(c, Dir [])], current := Some c\<rparr>) c = []"
    by (rule getReportFiles_empty_dir) (rule readdir_fresh [OF assms(3)])
  show ?thesis
    using assms(1,2,4) m ne r
    by (simp add: start_new_task_def mkdir_task_def updateCurrentSymlink_def getTaskInfo_def
        info_reply_def)
qed

lemma x_label: "''x'' \<noteq> [] \<and> dot_string ''x''"
  by (simp add: dot_string_def is_line_terminator_def)

text \<open>
  C5. On a day of which the root holds no entry, two calls of \<^verbatim>\<open>start_new_task\<close> with
  the label \<^verbatim>\<open>x\<close> create the directories \<^verbatim>\<open>date-x\<close> and \<^verbatim>\<open>dateb-x\<close>, and the pointer
  then references the second.
\<close>

theorem start_new_task_twice:
  assumes "is_date today" and "\<forall>n\<in>set (map fst (entries fs)). \<not> prefix today n"
  shows "start_new_task today fs ''x'' =
           (TaskInfoReply \<lparr>task_slug = ''x'', reports_dir = ''_tasks/'' @ today @ ''-x'',
                           report_file_names = []\<rparr>,
            fs\<lparr>entries := entries fs @ [(today @ ''-x'', Dir [])],
               current := Some (today @ ''-x'')\<rparr>)
       \<and> start_new_task today (snd (start_new_task today fs ''x'')) ''x'' =
           (TaskInfoReply \<lparr>task_slug = ''x'', reports_dir = ''_tasks/'' @ today @ ''b-x'',
                           report_file_names = []\<rparr>,
            fs\<lparr>entries := entries fs @ [(today @ ''-x'', Dir []), (today @ ''b-x'', Dir [])],
               current := Some (today @ ''b-x'')\<rparr>)"
proof -
  define c0 where "c0 = today @ ''-x''"
  define c1 where "c1 = today @ ''b-x''"
  define fs1 where "fs1 = fs\<lparr>entries := entries fs @ [(c0, Dir [])], current := Some c0\<rparr>"
  have g0: "getDateSuffix today 0 @ ''-'' @ ''x'' = c0" by (simp add: getDateSuffix_def c0_def)
  have "char_of (98::nat) = CHR ''b''" by code_simp
  then have g1: "getDateSuffix today 1 @ ''-'' @ ''x'' = c1"
    by (simp add: getDateSuffix_def c1_def)
  have p0: "parseTaskDirName c0 = Some \<lparr>datePrefix = getDateSuffix today 0, slug = ''x''\<rparr>"
    using parse_format [OF assms(1), of 0 "''x''"] x_label g0 by simp
  have p1: "parseTaskDirName c1 = Some \<lparr>datePrefix = getDateSuffix today 1, slug = ''x''\<rparr>"
    using parse_format [OF assms(1), of 1 "''x''"] x_label g1 by simp
  have fresh: "\<not> prefix today n" if "n \<in> fst ` set (entries fs)" for n
    using assms(2) that by auto
  have n0: "c0 \<notin> fst ` set (entries fs)" using fresh [of c0] by (auto simp add: c0_def)
  have n1: "c1 \<notin> fst ` set (entries fs)" using fresh [of c1] by (auto simp add: c1_def)
  have d: "c0 \<noteq> c1" by (simp add: c0_def c1_def)
  have a0: "c0 \<notin> set (getAllTaskDirs fs)" using n0 by (force simp add: getAllTaskDirs_set)
  have f0: "findNextTaskDirName today fs ''x'' = Inr c0"
    using getDateSuffix_least [of 0 today "''x''" fs] a0 g0 by simp
  have s0: "start_new_task today fs ''x'' =
      (TaskInfoReply \<lparr>task_slug = ''x'', reports_dir = ''_tasks/'' @ c0, report_file_names = []\<rparr>, fs1)"
    using start_new_task_fresh [OF _ f0 n0 p0] by (simp add: fs1_def)
  have e1: "entries fs1 = entries fs @ [(c0, Dir [])]" by (simp add: fs1_def)
  have in1: "c0 \<in> set (getAllTaskDirs fs1)"
    using p0 by (auto simp add: getAllTaskDirs_set e1 intro!: exI [of _ "Dir []"])
  have n1': "c1 \<notin> fst ` set (entries fs1)" using n1 d by (auto simp add: e1)
  then have a1: "c1 \<notin> set (getAllTaskDirs fs1)" by (force simp add: getAllTaskDirs_set)
  have f1: "findNextTaskDirName today fs1 ''x'' = Inr c1"
    using getDateSuffix_least [of 1 today "''x''" fs1] a1 in1 g0 g1 by simp
  have s1: "start_new_task today fs1 ''x'' =
      (TaskInfoReply \<lparr>task_slug = ''x'', reports_dir = ''_tasks/'' @ c1, report_file_names = []\<rparr>,
       fs1\<lparr>entries := entries fs1 @ [(c1, Dir [])], current := Some c1\<rparr>)"
    using start_new_task_fresh [OF _ f1 n1' p1] by simp
  show ?thesis
    using s0 s1 by (simp add: fs1_def c0_def c1_def)
qed

theorem start_new_task_twice_witness:
  "start_new_task ''2025-10-02'' (snd (start_new_task ''2025-10-02'' two_tasks_root ''x'')) ''x'' =
     (TaskInfoReply \<lparr>task_slug = ''x'', reports_dir = ''_tasks/2025-10-02b-x'',
                     report_file_names = []\<rparr>,
      two_tasks_root\<lparr>entries := entries two_tasks_root @
                        [(''2025-10-02-x'', Dir []), (''2025-10-02b-x'', Dir [])],
                      current := Some ''2025-10-02b-x''\<rparr>)
   \<and> is_date ''2025-10-02''"
proof -
  have a: "is_date ''2025-10-02''" by code_simp
  have b: "\<forall>n\<in>set (map fst (entries two_tasks_root)). \<not> prefix ''2025-10-02'' n" by code_simp
  from conjunct2 [OF start_new_task_twice [OF a b]] a show ?thesis by simp
qed


section \<open>Proposed report file names\<close>

lemma digits_of_1: "n < 10 \<Longrightarrow> digits_of n = [char_of (48 + n)]"
  by (simp add: digits_of.simps)

lemma digits_of_2:
  "10 \<le> n \<Longrightarrow> n < 100 \<Longrightarrow> digits_of n = [char_of (48 + n div 10), char_of (48 + n mod 10)]"
  by (subst digits_of.simps) (simp add: digits_of_1)

lemma digits_of_3:
  "100 \<le> n \<Longrightarrow> n < 1000 \<Longrightarrow>
   digits_of n = [char_of (48 + n div 100), char_of (48 + n div 10 mod 10), char_of (48 + n mod 10)]"
  by (subst digits_of.simps) (simp add: digits_of_2 div_mult2_eq [symmetric])

lemma char_of_48: "char_of (48::nat) = CHR ''0''"
  by code_simp

lemma pad3:
  assumes "n < 1000"
  shows "padStart (digits_of n) 3 CHR ''0'' =
         [char_of (48 + n div 100), char_of (48 + n div 10 mod 10), char_of (48 + n mod 10)]"
proof -
  consider "n < 10" | "10 \<le> n" "n < 100" | "100 \<le> n" using not_le by blast
  then show ?thesis
  proof cases
    case 1
    then show ?thesis by (simp add: padStart_def digits_of_1 char_of_48 numeral_2_eq_2)
  next
    case 2
    then have "n div 100 = 0" by simp
    with 2 show ?thesis by (simp add: padStart_def digits_of_2 char_of_48)
  next
    case 3
    with assms show ?thesis by (simp add: padStart_def digits_of_3)
  qed
qed

lemma is_digit_char_of: "(d::nat) < 10 \<Longrightarrow> is_digit (char_of (48 + d))"
  by (simp add: is_digit_def less_eq_char_def)

lemma digit_val_char_of: "(d::nat) < 10 \<Longrightarrow> digit_val (char_of (48 + d)) = d"
  by (simp add: digit_val_def)

lemma dot_string_append: "dot_string (a @ b) \<longleftrightarrow> dot_string a \<and> dot_string b"
  by (simp add: dot_string_def)

lemma dot_string_md: "dot_string ''.md''"
  by (simp add: dot_string_def is_line_terminator_def)

lemma endsWith_append: "endsWith (a @ b) b"
  by (simp add: endsWith_def)

lemma isReportName_reportFileName:
  assumes "n < 1000" "dot_string sfx"
  shows "isReportName (reportFileName n sfx)"
proof -
  have d: "n div 100 < 10" "n div 10 mod 10 < 10" "n mod 10 < 10" using assms(1) by simp_all
  have "endsWith (sfx @ ''.md'') ''.md''" by (rule endsWith_append)
  then show ?thesis
    using assms(2) is_digit_char_of [OF d(1)] is_digit_char_of [OF d(2)] is_digit_char_of [OF d(3)]
      dot_string_md
    unfolding reportFileName_def pad3 [OF assms(1)]
    by (simp add: dot_string_append)
qed

lemma three_digit_sum:
  "10 * x + y = z \<Longrightarrow> 10 * z + w = n \<Longrightarrow> 100 * x + 10 * y + w = (n::nat)"
  by linarith

lemma reportNumber_reportFileName:
  assumes "n < 1000"
  shows "reportNumber (reportFileName n sfx) = n"
proof -
  have d: "n div 100 < 10" "n div 10 mod 10 < 10" "n mod 10 < 10" using assms(1) by simp_all
  have "reportNumber (reportFileName n sfx) = 100 * (n div 100) + 10 * (n div 10 mod 10) + n mod 10"
    using is_digit_char_of [OF d(1)] is_digit_char_of [OF d(2)] is_digit_char_of [OF d(3)]
      digit_val_char_of [OF d(1)] digit_val_char_of [OF d(2)] digit_val_char_of [OF d(3)]
    unfolding reportFileName_def pad3 [OF assms(1)]
    by (simp add: parseInt_def)
  also have "\<dots> = n"
  proof -
    have a: "10 * (n div 100) + n div 10 mod 10 = n div 10"
      using div_mult_mod_eq [of "n div 10" 10] by (simp add: div_mult2_eq [symmetric] mult.commute)
    have b: "10 * (n div 10) + n mod 10 = n"
      using div_mult_mod_eq [of n 10] by (simp add: mult.commute)
    from three_digit_sum [OF a b] show ?thesis .
  qed
  finally show ?thesis .
qed

lemma findNextReportNumber_Max:
  assumes "readdir fs d = Some names"
  shows "findNextReportNumber fs d =
           (if \<exists>x\<in>set names. isReportName x
            then Max (reportNumber ` {x \<in> set names. isReportName x}) + 1 else 1)"
proof (cases "\<exists>x\<in>set names. isReportName x")
  case True
  then have ne: "filter isReportName names \<noteq> []" by (simp add: filter_empty_conv)
  then have ne': "map reportNumber (sort (filter isReportName names)) \<noteq> []" 
    by (metis length_sort length_0_conv map_is_Nil_conv)
  have "set (map reportNumber (sort (filter isReportName names))) =
        reportNumber ` {x \<in> set names. isReportName x}" by auto
  with math_max_Max [OF ne'] have
    "math_max (map reportNumber (sort (filter isReportName names))) =
     Max (reportNumber ` {x \<in> set names. isReportName x})" by simp
  moreover have "sort (filter isReportName names) \<noteq> []" using ne' by simp
  ultimately show ?thesis
    using True assms
    unfolding findNextReportNumber_whole_listing next_report_number_unbounded_def reportFilesAll_def
    by (simp add: Let_def)
next
  case False
  then have "filter isReportName names = []" by (simp add: filter_empty_conv)
  then show ?thesis
    using False assms
    unfolding findNextReportNumber_whole_listing next_report_number_unbounded_def reportFilesAll_def
    by (simp add: Let_def)
qed

lemma readdir_create_file:
  assumes "readdir fs d = Some names" "f \<notin> set names"
  shows "readdir (create_file fs d f) d = Some (names @ [f])"
  using assms by (simp add: create_file_def readdir_def update_conv')

lemma next_after_create:
  assumes rd: "readdir fs d = Some names"
    and small: "\<forall>x\<in>set names. isReportName x \<longrightarrow> reportNumber x \<le> 998"
    and dots: "dot_string sfx"
  shows "isReportName (reportFileName (findNextReportNumber fs d) sfx) \<and>
         findNextReportNumber (create_file fs d (reportFileName (findNextReportNumber fs d) sfx)) d =
           findNextReportNumber fs d + 1"
proof -
  define M where "M = {x \<in> set names. isReportName x}"
  define n where "n = findNextReportNumber fs d"
  define f where "f = reportFileName n sfx"
  have fin: "finite (reportNumber ` M)" by (simp add: M_def)
  have n_eq: "n = (if M \<noteq> {} then Max (reportNumber ` M) + 1 else 1)"
    unfolding n_def findNextReportNumber_Max [OF rd] M_def by auto
  have le: "\<forall>k\<in>reportNumber ` M. k \<le> 998" using small by (auto simp add: M_def)
  have n_small: "n < 1000"
  proof (cases "M = {}")
    case True
    then show ?thesis using n_eq by simp
  next
    case False
    then have "Max (reportNumber ` M) \<in> reportNumber ` M" using fin by (intro Max_in) auto
    with le have "Max (reportNumber ` M) \<le> 998" by blast
    then show ?thesis using n_eq False by simp
  qed
  have match: "isReportName f" unfolding f_def by (rule isReportName_reportFileName [OF n_small dots])
  have num: "reportNumber f = n" unfolding f_def by (rule reportNumber_reportFileName [OF n_small])
  have below: "\<forall>k\<in>reportNumber ` M. k < n"
  proof
    fix k assume k: "k \<in> reportNumber ` M"
    then have "M \<noteq> {}" by auto
    moreover have "k \<le> Max (reportNumber ` M)" using fin k by (rule Max_ge)
    ultimately show "k < n" using n_eq by simp
  qed
  have new: "f \<notin> set names"
  proof
    assume "f \<in> set names"
    with match have "f \<in> M" by (simp add: M_def)
    then have "reportNumber f \<in> reportNumber ` M" by (rule imageI)
    with below num show False by auto
  qed
  have rd': "readdir (create_file fs d f) d = Some (names @ [f])"
    by (rule readdir_create_file [OF rd new])
  have set': "{x \<in> set (names @ [f]). isReportName x} = insert f M"
    using match by (auto simp add: M_def)
  have "Max (reportNumber ` insert f M) = n"
  proof (rule Max_eqI)
    show "finite (reportNumber ` insert f M)" using fin by simp
    show "y \<le> n" if "y \<in> reportNumber ` insert f M" for y
      using that below num by auto
    show "n \<in> reportNumber ` insert f M" using num by auto
  qed
  then have "findNextReportNumber (create_file fs d f) d = n + 1"
    unfolding findNextReportNumber_Max [OF rd'] set' using match by auto
  with match show ?thesis by (simp add: f_def n_def)
qed

text \<open>
  C10. The claim: in a current task directory whose listed reports all have numbers up to
  998, the proposed file name matches the listing's filter, so that creating it makes the
  next number one larger. The suffix goes into the name as it is, and the filter's
  \<^verbatim>\<open>.*\<close> matches no line terminator: with a line feed in the suffix the proposed name is
  not listed, and after its creation the same number is proposed again.
\<close>

theorem start_new_report_file_newline_suffix:
  "start_new_report_file two_tasks_root [CHR ''a'', CHR 0x0A, CHR ''b''] =
     ReportFileToCreate (''_tasks/2025-10-01-task-one/002-a'' @ [CHR 0x0A] @ ''b.md'')
   \<and> \<not> isReportName (''002-a'' @ [CHR 0x0A] @ ''b.md'')
   \<and> findNextReportNumber two_tasks_root ''2025-10-01-task-one'' = 2
   \<and> findNextReportNumber
        (create_file two_tasks_root ''2025-10-01-task-one'' (''002-a'' @ [CHR 0x0A] @ ''b.md''))
        ''2025-10-01-task-one'' = 2"
  by code_simp

text \<open>
  C10, as amended: the same, for a suffix without a line terminator that names a file
  directly in the task directory (no \<^verbatim>\<open>/\<close>, which the flat listing of a task directory
  does not represent).
\<close>

theorem start_new_report_file_closure:
  assumes "getCurrentTaskDir fs = Some taskDir" "taskDir \<noteq> []"
    and "readdir fs taskDir = Some names"
    and "\<forall>x\<in>set names. isReportName x \<longrightarrow> reportNumber x \<le> 998"
    and "sfx \<noteq> []" "dot_string sfx" "CHR ''/'' \<notin> set sfx"
  shows "start_new_report_file fs sfx =
           ReportFileToCreate
             (''_tasks/'' @ taskDir @ ''/'' @ reportFileName (findNextReportNumber fs taskDir) sfx)
       \<and> isReportName (reportFileName (findNextReportNumber fs taskDir) sfx)
       \<and> findNextReportNumber
           (create_file fs taskDir (reportFileName (findNextReportNumber fs taskDir) sfx)) taskDir =
         findNextReportNumber fs taskDir + 1"
  using assms(1,2,5) next_after_create [OF assms(3,4,6)]
  by (simp add: start_new_report_file_def)

theorem start_new_report_file_closure_witness:
  "start_new_report_file two_tasks_root ''plan'' =
     ReportFileToCreate ''_tasks/2025-10-01-task-one/002-plan.md''
   \<and> findNextReportNumber two_tasks_root ''2025-10-01-task-one'' = 2
   \<and> findNextReportNumber
        (create_file two_tasks_root ''2025-10-01-task-one'' ''002-plan.md'')
        ''2025-10-01-task-one'' = 3"
proof -
  have a: "getCurrentTaskDir two_tasks_root = Some ''2025-10-01-task-one''" by code_simp
  have b: "''2025-10-01-task-one'' \<noteq> []" by simp
  have c: "readdir two_tasks_root ''2025-10-01-task-one'' = Some [''001-a.md'']" by code_simp
  have d: "\<forall>x\<in>set [''001-a.md'']. isReportName x \<longrightarrow> reportNumber x \<le> 998" by code_simp
  have e: "''plan'' \<noteq> []" by simp
  have f: "dot_string ''plan''" by code_simp
  have g: "CHR ''/'' \<notin> set ''plan''" by code_simp
  have n: "findNextReportNumber two_tasks_root ''2025-10-01-task-one'' = 2" by code_simp
  have r: "reportFileName 2 ''plan'' = ''002-plan.md''" by code_simp
  from start_new_report_file_closure [OF a b c d e f g] n r show ?thesis by simp
qed

section \<open>Dates as strings\<close>

















section \<open>Going back by days\<close>











section \<open>Recent tasks\<close>












end
